theory Spec2Isabelle
  imports Main "HOL-Library.Sublist"
begin

section \<open>Strings and promises\<close>

text \<open>
  A JavaScript string is a sequence of UTF-16 code units; a code unit is modelled as
  its number. Literals of the source that are plain ASCII are written with \<open>js\<close>.
\<close>

type_synonym jstring = "nat list"

definition js :: "string \<Rightarrow> jstring" where
  "js s = map of_char s"

text \<open>
  \<open>String.prototype.trim\<close> removes the WhiteSpace and LineTerminator code points of
  ECMAScript from both ends.
\<close>

definition isWhiteSpace :: "nat \<Rightarrow> bool" where
  "isWhiteSpace c =
     (c \<in> set [9, 10, 11, 12, 13, 32, 160, 5760, 8232, 8233, 8239, 8287, 12288, 65279]
      \<or> (8192 \<le> c \<and> c \<le> 8202))"

definition trim :: "jstring \<Rightarrow> jstring" where
  "trim s = rev (dropWhile isWhiteSpace (rev (dropWhile isWhiteSpace s)))"

text \<open>The outcome of an awaited promise: it resolves with a value or it rejects.\<close>

datatype 'a settled = Resolved 'a | Rejected

section \<open>types.ts\<close>

datatype Language = En | Zh

record Recipe =
  title :: jstring
  description :: jstring
  ingredients :: "jstring list"
  steps :: "jstring list"
  tips :: jstring

datatype Role = User | Model

text \<open>
  A \<open>Message\<close>; its fields \<open>id\<close> and \<open>text\<close> are \<open>id_msg\<close> and \<open>text_msg\<close> here, and
  the \<open>title\<close> of a source is \<open>title_source\<close>. An absent optional field is \<open>None\<close>.
\<close>

record Source =
  uri :: jstring
  title_source :: "jstring option"

record Message =
  id_msg :: jstring
  role :: Role
  text_msg :: jstring
  isTyping :: "bool option"
  sources :: "Source list option"

section \<open>services/gemini.ts: the recipe service\<close>

text \<open>
  The provider's answer to \<open>ai.models.generateContent\<close>: its \<open>text\<close> (here
  \<open>text_response\<close>) and its candidates. The search-grounding metadata of a reply is a
  field of its first candidate; the reply has no field \<open>groundingMetadata\<close> of its own.
  A grounding chunk has \<open>web?.uri\<close> and \<open>web.title\<close> (here \<open>uri_web\<close> and
  \<open>title_web\<close>).
\<close>

record Web =
  uri_web :: "jstring option"
  title_web :: "jstring option"

record GroundingChunk =
  web :: "Web option"

record GroundingMetadata =
  groundingChunks :: "GroundingChunk list option"

record Candidate =
  groundingMetadata :: "GroundingMetadata option"

record GenerateContentResponse =
  text_response :: "jstring option"
  candidates :: "Candidate list option"

text \<open>A value of \<open>JSON.parse\<close>; a number keeps its literal.\<close>

datatype json =
    JNull
  | JBool bool
  | JNumber jstring
  | JString jstring
  | JArray "json list"
  | JObject "(jstring \<times> json) list"

datatype recipe_error = RequestFailed | NoRecipeGenerated | SyntaxError

text \<open>
  \<open>generateCoffeeRecipe\<close> once the provider has answered. \<open>JSON.parse\<close> is a builtin of
  the language and is a parameter here: it yields a value, or \<open>None\<close> where it throws
  \<open>SyntaxError\<close>. The cast \<open>as Recipe\<close> does nothing at run time, so the value returned
  is the parsed one.
\<close>

definition generateCoffeeRecipe ::
  "(jstring \<Rightarrow> json option) \<Rightarrow> GenerateContentResponse settled \<Rightarrow> recipe_error + json" where
  "generateCoffeeRecipe JSON_parse answer =
     (case answer of
        Rejected \<Rightarrow> Inl RequestFailed
      | Resolved response \<Rightarrow>
          (case text_response response of
             None \<Rightarrow> Inl NoRecipeGenerated
           | Some t \<Rightarrow>
               if t = [] then Inl NoRecipeGenerated
               else (case JSON_parse t of None \<Rightarrow> Inl SyntaxError | Some v \<Rightarrow> Inr v)))"

text \<open>
  The shape that the interface \<open>Recipe\<close> of types.ts describes, read off a parsed value:
  an object whose \<open>title\<close>, \<open>description\<close> and \<open>tips\<close> are strings and whose
  \<open>ingredients\<close> and \<open>steps\<close> are arrays of strings.
\<close>

fun as_string :: "json \<Rightarrow> jstring option" where
  "as_string (JString s) = Some s"
| "as_string _ = None"

fun all_strings :: "json list \<Rightarrow> jstring list option" where
  "all_strings [] = Some []"
| "all_strings (v # vs) =
     (case as_string v of
        None \<Rightarrow> None
      | Some s \<Rightarrow> (case all_strings vs of None \<Rightarrow> None | Some ss \<Rightarrow> Some (s # ss)))"

fun as_string_array :: "json \<Rightarrow> jstring list option" where
  "as_string_array (JArray vs) = all_strings vs"
| "as_string_array _ = None"

definition get_field ::
  "(jstring \<times> json) list \<Rightarrow> string \<Rightarrow> (json \<Rightarrow> 'a option) \<Rightarrow> 'a option" where
  "get_field fs k rd = (case map_of fs (js k) of None \<Rightarrow> None | Some v \<Rightarrow> rd v)"

fun as_Recipe :: "json \<Rightarrow> Recipe option" where
  "as_Recipe (JObject fs) =
     (case (get_field fs ''title'' as_string, get_field fs ''description'' as_string,
            get_field fs ''ingredients'' as_string_array, get_field fs ''steps'' as_string_array,
            get_field fs ''tips'' as_string) of
        (Some t, Some d, Some i, Some s, Some p) \<Rightarrow>
          Some \<lparr>title = t, description = d, ingredients = i, steps = s, tips = p\<rparr>
      | _ \<Rightarrow> None)"
| "as_Recipe _ = None"

section \<open>services/gemini.ts: the image services\<close>

text \<open>
  The provider's answer to \<open>ai.models.generateImages\<close>, as far as the code reads it:
  \<open>response.generatedImages?.[0]?.image?.imageBytes\<close> (the field \<open>image\<close> is
  \<open>image_field\<close> here).
\<close>

record Image =
  imageBytes :: "jstring option"

record GeneratedImage =
  image_field :: "Image option"

record GenerateImagesResponse =
  generatedImages :: "GeneratedImage list option"

definition first_imageBytes :: "GenerateImagesResponse \<Rightarrow> jstring option" where
  "first_imageBytes response =
     (case generatedImages response of
        None \<Rightarrow> None
      | Some [] \<Rightarrow> None
      | Some (g # _) \<Rightarrow> (case image_field g of None \<Rightarrow> None | Some im \<Rightarrow> imageBytes im))"

text \<open>
  What \<open>generateRecipeImage\<close> and \<open>generateStepImage\<close> do once the provider has
  answered: a rejected request rejects, a missing or empty payload throws, and a payload
  becomes a data URL. Both functions end with the same three lines.
\<close>

definition data_url :: "GenerateImagesResponse settled \<Rightarrow> jstring settled" where
  "data_url answer =
     (case answer of
        Rejected \<Rightarrow> Rejected
      | Resolved response \<Rightarrow>
          (case first_imageBytes response of
             None \<Rightarrow> Rejected
           | Some base64Image \<Rightarrow>
               if base64Image = [] then Rejected
               else Resolved (js ''data:image/jpeg;base64,'' @ base64Image)))"

definition generateRecipeImage :: "GenerateImagesResponse settled \<Rightarrow> jstring settled" where
  "generateRecipeImage answer = data_url answer"

definition generateStepImage :: "GenerateImagesResponse settled \<Rightarrow> jstring settled" where
  "generateStepImage answer = data_url answer"

section \<open>components/RecipeGenerator.tsx\<close>

datatype view = Input | Generating | Result

text \<open>
  The component's \<open>useState\<close> cells and the \<open>isGeneratingRef\<close> ref. \<open>stepImages\<close> is
  the \<open>Record<number, string>\<close> keyed by step index.
\<close>

record component =
  prompt :: jstring
  loading :: bool
  recipe :: "Recipe option"
  imageUrl :: "jstring option"
  stepImages :: "nat \<rightharpoonup> jstring"
  error :: "jstring option"
  step :: view
  selectedImage :: "jstring option"
  isGeneratingRef :: bool

text \<open>The entry \<open>t.error\<close> of the localisation table.\<close>

definition t_error :: "Language \<Rightarrow> jstring" where
  "t_error language =
     (case language of
        En \<Rightarrow> js ''Failed to brew your recipe. Please try again.''
      | Zh \<Rightarrow> [37197, 26041, 29983, 25104, 22833, 36133, 65292, 35831, 37325, 35797, 12290])"

text \<open>
  Calls that leave the component: a service call (with the arguments it is given; the
  step index of a step-image call is kept beside them) and the timer of the delay.
\<close>

datatype effect =
    CallGenerateCoffeeRecipe jstring Language
  | CallGenerateRecipeImage jstring jstring
  | SetTimeout nat
  | CallGenerateStepImage nat jstring jstring

datatype console_entry = RecipeError | MainImageFailed | StepImageFailed nat

text \<open>
  An asynchronous call of \<open>handleGenerate\<close> is suspended at one of its \<open>await\<close>s, with
  the variables its continuation has captured; \<open>generateImagesSequentially\<close> runs as the
  continuation of the same call. The position of a task in \<open>tasks\<close> names the session.
\<close>

datatype task =
    AwaitRecipe Language
  | AwaitMainImage Recipe
  | AwaitDelay Recipe nat
  | AwaitStepImage Recipe nat
  | Finished

record world =
  ui :: component
  tasks :: "task list"
  effects :: "(nat \<times> effect) list"
  console :: "console_entry list"

definition emit :: "nat \<Rightarrow> effect \<Rightarrow> world \<Rightarrow> world" where
  "emit tid e w = w\<lparr>effects := effects w @ [(tid, e)]\<rparr>"

definition suspend :: "nat \<Rightarrow> task \<Rightarrow> world \<Rightarrow> world" where
  "suspend tid t w = w\<lparr>tasks := (tasks w)[tid := t]\<rparr>"

definition console_error :: "console_entry \<Rightarrow> world \<Rightarrow> world" where
  "console_error c w = w\<lparr>console := console w @ [c]\<rparr>"

definition handleReset :: "component \<Rightarrow> component" where
  "handleReset c = c\<lparr>isGeneratingRef := False, step := Input\<rparr>"

text \<open>
  The head of the \<open>for\<close> loop at index \<open>i\<close>: the bound, the first liveness check and
  the start of the 4000 ms timer.
\<close>

definition loop_head :: "nat \<Rightarrow> Recipe \<Rightarrow> nat \<Rightarrow> world \<Rightarrow> world" where
  "loop_head tid currentRecipe i w =
     (if i < length (steps currentRecipe) then
        if \<not> isGeneratingRef (ui w) then suspend tid Finished w
        else suspend tid (AwaitDelay currentRecipe i) (emit tid (SetTimeout 4000) w)
      else suspend tid Finished w)"

text \<open>\<open>generateImagesSequentially\<close> up to its first \<open>await\<close>.\<close>

definition generateImagesSequentially :: "nat \<Rightarrow> Recipe \<Rightarrow> world \<Rightarrow> world" where
  "generateImagesSequentially tid currentRecipe w =
     (if \<not> isGeneratingRef (ui w) then suspend tid Finished w
      else suspend tid (AwaitMainImage currentRecipe)
             (emit tid (CallGenerateRecipeImage (title currentRecipe) (description currentRecipe)) w))"

text \<open>The main image request has settled.\<close>

definition main_image_settled ::
  "nat \<Rightarrow> Recipe \<Rightarrow> GenerateImagesResponse settled \<Rightarrow> world \<Rightarrow> world" where
  "main_image_settled tid currentRecipe answer w =
     loop_head tid currentRecipe 0
       (case generateRecipeImage answer of
          Resolved img \<Rightarrow>
            if isGeneratingRef (ui w) then w\<lparr>ui := (ui w)\<lparr>imageUrl := Some img\<rparr>\<rparr> else w
        | Rejected \<Rightarrow> console_error MainImageFailed w)"

text \<open>The timer of step \<open>i\<close> has fired.\<close>

definition delay_elapsed :: "nat \<Rightarrow> Recipe \<Rightarrow> nat \<Rightarrow> world \<Rightarrow> world" where
  "delay_elapsed tid currentRecipe i w =
     (if \<not> isGeneratingRef (ui w) then suspend tid Finished w
      else suspend tid (AwaitStepImage currentRecipe i)
             (emit tid (CallGenerateStepImage i (steps currentRecipe ! i) (title currentRecipe)) w))"

text \<open>The image request of step \<open>i\<close> has settled.\<close>

definition step_image_settled ::
  "nat \<Rightarrow> Recipe \<Rightarrow> nat \<Rightarrow> GenerateImagesResponse settled \<Rightarrow> world \<Rightarrow> world" where
  "step_image_settled tid currentRecipe i answer w =
     loop_head tid currentRecipe (i + 1)
       (case generateStepImage answer of
          Resolved img \<Rightarrow>
            if isGeneratingRef (ui w)
            then w\<lparr>ui := (ui w)\<lparr>stepImages := (stepImages (ui w))(i \<mapsto> img)\<rparr>\<rparr>
            else w
        | Rejected \<Rightarrow> console_error (StepImageFailed i) w)"

text \<open>\<open>handleGenerate\<close> up to \<open>await generateCoffeeRecipe(inputPrompt, language)\<close>.\<close>

definition handleGenerate :: "Language \<Rightarrow> jstring \<Rightarrow> world \<Rightarrow> world" where
  "handleGenerate language inputPrompt w =
     (if trim inputPrompt = [] then w
      else
        emit (length (tasks w)) (CallGenerateCoffeeRecipe inputPrompt language)
          (w\<lparr>ui := (ui w)\<lparr>isGeneratingRef := False, prompt := inputPrompt, loading := True,
                           error := None, step := Generating, recipe := None,
                           imageUrl := None, stepImages := Map.empty\<rparr>,
             tasks := tasks w @ [AwaitRecipe language]\<rparr>))"

text \<open>
  \<open>handleGenerate\<close> after the recipe request has settled. The promise of
  \<open>generateCoffeeRecipe\<close> is typed \<open>Promise<Recipe>\<close>; its value is taken at that type.
\<close>

definition recipe_settled :: "nat \<Rightarrow> Language \<Rightarrow> Recipe settled \<Rightarrow> world \<Rightarrow> world" where
  "recipe_settled tid language answer w =
     (case answer of
        Resolved generatedRecipe \<Rightarrow>
          generateImagesSequentially tid generatedRecipe
            (w\<lparr>ui := (ui w)\<lparr>recipe := Some generatedRecipe, step := Result, loading := False,
                             isGeneratingRef := True\<rparr>\<rparr>)
      | Rejected \<Rightarrow>
          suspend tid Finished
            ((console_error RecipeError w)
               \<lparr>ui := (ui w)\<lparr>error := Some (t_error language), step := Input,
                               loading := False\<rparr>\<rparr>))"

text \<open>
  What can happen to the component: the user submits a prompt or presses the reset
  button, or something a task awaits settles. An event for a task that is not waiting
  for it changes nothing.
\<close>

datatype event =
    UserGenerate Language jstring
  | UserReset
  | RecipeSettled nat "Recipe settled"
  | MainImageSettled nat "GenerateImagesResponse settled"
  | DelayElapsed nat
  | StepImageSettled nat "GenerateImagesResponse settled"

fun fire :: "event \<Rightarrow> world \<Rightarrow> world" where
  "fire (UserGenerate language inputPrompt) w = handleGenerate language inputPrompt w"
| "fire UserReset w = w\<lparr>ui := handleReset (ui w)\<rparr>"
| "fire (RecipeSettled tid answer) w =
     (if tid < length (tasks w) then
        (case tasks w ! tid of
           AwaitRecipe language \<Rightarrow> recipe_settled tid language answer w
         | _ \<Rightarrow> w)
      else w)"
| "fire (MainImageSettled tid answer) w =
     (if tid < length (tasks w) then
        (case tasks w ! tid of
           AwaitMainImage currentRecipe \<Rightarrow> main_image_settled tid currentRecipe answer w
         | _ \<Rightarrow> w)
      else w)"
| "fire (DelayElapsed tid) w =
     (if tid < length (tasks w) then
        (case tasks w ! tid of
           AwaitDelay currentRecipe i \<Rightarrow> delay_elapsed tid currentRecipe i w
         | _ \<Rightarrow> w)
      else w)"
| "fire (StepImageSettled tid answer) w =
     (if tid < length (tasks w) then
        (case tasks w ! tid of
           AwaitStepImage currentRecipe i \<Rightarrow> step_image_settled tid currentRecipe i answer w
         | _ \<Rightarrow> w)
      else w)"

fun exec :: "event list \<Rightarrow> world \<Rightarrow> world" where
  "exec [] w = w"
| "exec (e # es) w = exec es (fire e w)"

text \<open>The component as it is mounted.\<close>

definition initial_component :: component where
  "initial_component =
     \<lparr>prompt = [], loading = False, recipe = None, imageUrl = None, stepImages = Map.empty,
      error = None, step = Input, selectedImage = None, isGeneratingRef = False\<rparr>"

definition initial_world :: world where
  "initial_world = \<lparr>ui = initial_component, tasks = [], effects = [], console = []\<rparr>"


section \<open>components/ChatInterface.tsx\<close>

text \<open>The component's \<open>useState\<close> cells.\<close>

record chat =
  messages :: "Message list"
  input :: jstring
  isLoading :: bool

text \<open>\<open>Number.prototype.toString\<close> on a natural number: its decimal digits.\<close>

function toString :: "nat \<Rightarrow> jstring" where
  "toString n = (if n < 10 then [48 + n] else toString (n div 10) @ [48 + n mod 10])"
  by pat_completeness auto
termination
  by (relation "measure id") auto

text \<open>The entries \<open>t.welcome\<close> and \<open>t.error\<close> of the chat's localisation table.\<close>

definition t_welcome :: "Language \<Rightarrow> jstring" where
  "t_welcome language =
     (case language of
        En \<Rightarrow> js ''Hello! I'' @ [39] @
               js ''m your Coffee Master. Ask me anything about coffee beans, brewing methods, or finding the best cafes!''
      | Zh \<Rightarrow> [20320, 22909, 65281, 25105, 26159, 20320, 30340, 19987, 23646, 21654, 21857, 22823,
               24072, 12290, 20851, 20110, 21654, 21857, 35910, 12289, 20914, 29038, 26041, 27861,
               25110, 23547, 25214, 22909, 21917, 30340, 21654, 21857, 39302, 65292, 23613, 31649,
               38382, 25105, 65281])"

definition t_error_chat :: "Language \<Rightarrow> jstring" where
  "t_error_chat language =
     (case language of
        En \<Rightarrow> js ''Sorry, I'' @ [39] @
               js ''m having trouble connecting to the coffee spirits right now. Please try again.''
      | Zh \<Rightarrow> [25265, 27465, 65292, 25105, 29616, 22312, 36830, 25509, 21654, 21857, 20043, 31070,
               26377, 28857, 22256, 38590, 65292, 35831, 31245, 21518, 20877, 35797, 12290])"

text \<open>
  The callback given to \<open>groundingChunks?.map\<close>, and \<open>.filter(Boolean)\<close> on its results:
  \<open>null\<close> is dropped, an object is kept. An empty string is falsy, so a chunk whose
  \<open>uri\<close> is empty yields \<open>null\<close> as well.
\<close>

definition cite :: "GroundingChunk \<Rightarrow> Source option" where
  "cite chunk =
     (case web chunk of
        None \<Rightarrow> None
      | Some w \<Rightarrow>
          (case uri_web w of
             None \<Rightarrow> None
           | Some u \<Rightarrow> if u = [] then None else Some \<lparr>uri = u, title_source = title_web w\<rparr>))"

fun filter_Boolean :: "'a option list \<Rightarrow> 'a list" where
  "filter_Boolean [] = []"
| "filter_Boolean (None # xs) = filter_Boolean xs"
| "filter_Boolean (Some x # xs) = x # filter_Boolean xs"

text \<open>
  \<open>response.groundingMetadata\<close>, read by \<open>handleSend\<close> on the reply that
  \<open>chatWithCoffeeExpert\<close> returns as it is: the reply has no property of that name, so
  the read yields \<open>undefined\<close>, and the optional chain after it yields \<open>undefined\<close> too.
\<close>

definition response_groundingMetadata :: "GenerateContentResponse \<Rightarrow> GroundingMetadata option" where
  "response_groundingMetadata response = None"

definition sources_of :: "GenerateContentResponse \<Rightarrow> Source list option" where
  "sources_of response =
     (case response_groundingMetadata response of
        None \<Rightarrow> None
      | Some gm \<Rightarrow>
          (case groundingChunks gm of
             None \<Rightarrow> None
           | Some chunks \<Rightarrow> Some (filter_Boolean (map cite chunks))))"

text \<open>
  A call of \<open>handleSend\<close> is suspended at \<open>await chatWithCoffeeExpert(...)\<close>; the call
  it has made is recorded with its arguments. \<open>Date.now()\<close> is read from the event.
\<close>

datatype chat_call = CallChatWithCoffeeExpert "(Role \<times> jstring list) list" jstring Language

datatype chat_task = AwaitReply Language | Replied

record chat_world =
  cui :: chat
  sends :: "chat_task list"
  calls :: "(nat \<times> chat_call) list"
  chat_console :: nat

text \<open>\<open>handleSend\<close> up to its \<open>await\<close>.\<close>

definition handleSend :: "Language \<Rightarrow> nat \<Rightarrow> chat_world \<Rightarrow> chat_world" where
  "handleSend language now w =
     (if trim (input (cui w)) = [] \<or> isLoading (cui w) then w
      else
        let userMsg = \<lparr>id_msg = toString now, role = User, text_msg = input (cui w),
                        isTyping = None, sources = None\<rparr>;
            historyForApi = map (\<lambda>m. (role m, [text_msg m]))
                              (filter (\<lambda>m. id_msg m \<noteq> js ''init'') (messages (cui w)))
        in w\<lparr>cui := (cui w)\<lparr>messages := messages (cui w) @ [userMsg], input := [],
                              isLoading := True\<rparr>,
              sends := sends w @ [AwaitReply language],
              calls := calls w @
                [(length (sends w),
                  CallChatWithCoffeeExpert historyForApi (text_msg userMsg) language)]\<rparr>)"

definition botMsg :: "nat \<Rightarrow> GenerateContentResponse \<Rightarrow> Message" where
  "botMsg now response =
     \<lparr>id_msg = toString (now + 1), role = Model,
      text_msg = (case text_response response of None \<Rightarrow> [] | Some t \<Rightarrow> t),
      isTyping = None, sources = sources_of response\<rparr>"

text \<open>\<open>handleSend\<close> after the request has settled: \<open>try\<close>, \<open>catch\<close> and \<open>finally\<close>.\<close>

definition reply_settled ::
  "nat \<Rightarrow> Language \<Rightarrow> GenerateContentResponse settled \<Rightarrow> nat \<Rightarrow> chat_world \<Rightarrow> chat_world" where
  "reply_settled tid language answer now w =
     (case answer of
        Resolved response \<Rightarrow>
          w\<lparr>cui := (cui w)\<lparr>messages := messages (cui w) @ [botMsg now response],
                            isLoading := False\<rparr>,
            sends := (sends w)[tid := Replied]\<rparr>
      | Rejected \<Rightarrow>
          w\<lparr>cui := (cui w)\<lparr>messages := messages (cui w) @
                              [\<lparr>id_msg = toString now, role = Model,
                                text_msg = t_error_chat language, isTyping = None,
                                sources = None\<rparr>],
                            isLoading := False\<rparr>,
            sends := (sends w)[tid := Replied],
            chat_console := chat_console w + 1\<rparr>)"

text \<open>
  The effect with dependency \<open>[language]\<close>, which runs when the component is mounted and
  when the language changes: an empty transcript gets the welcome message.
\<close>

definition welcome_effect :: "Language \<Rightarrow> chat \<Rightarrow> chat" where
  "welcome_effect language c =
     (if length (messages c) = 0 then
        c\<lparr>messages := [\<lparr>id_msg = js ''init'', role = Model, text_msg = t_welcome language,
                         isTyping = None, sources = None\<rparr>]\<rparr>
      else c)"

datatype chat_event =
    LanguageEffect Language
  | UserTypes jstring
  | UserSends Language nat
  | ReplySettled nat "GenerateContentResponse settled" nat

fun chat_fire :: "chat_event \<Rightarrow> chat_world \<Rightarrow> chat_world" where
  "chat_fire (LanguageEffect language) w = w\<lparr>cui := welcome_effect language (cui w)\<rparr>"
| "chat_fire (UserTypes v) w = w\<lparr>cui := (cui w)\<lparr>input := v\<rparr>\<rparr>"
| "chat_fire (UserSends language now) w = handleSend language now w"
| "chat_fire (ReplySettled tid answer now) w =
     (if tid < length (sends w) then
        (case sends w ! tid of
           AwaitReply language \<Rightarrow> reply_settled tid language answer now w
         | Replied \<Rightarrow> w)
      else w)"

fun chat_exec :: "chat_event list \<Rightarrow> chat_world \<Rightarrow> chat_world" where
  "chat_exec [] w = w"
| "chat_exec (e # es) w = chat_exec es (chat_fire e w)"

text \<open>The chat as its \<open>useState\<close> cells are initialised, before the mount effect has run.\<close>

definition initial_chat :: chat_world where
  "initial_chat =
     \<lparr>cui = \<lparr>messages = [], input = [], isLoading = False\<rparr>, sends = [], calls = [],
      chat_console = 0\<rparr>"

section \<open>Vocabulary of the properties\<close>

subsection \<open>What a session has asked for\<close>

text \<open>
  The image requests and timers of session \<open>tid\<close>, in the order in which they were
  made, and the step indices among them.
\<close>

fun is_image_effect :: "effect \<Rightarrow> bool" where
  "is_image_effect (CallGenerateCoffeeRecipe _ _) = False"
| "is_image_effect _ = True"

definition image_effects :: "nat \<Rightarrow> (nat \<times> effect) list \<Rightarrow> effect list" where
  "image_effects tid es = filter is_image_effect (map snd (filter (\<lambda>p. fst p = tid) es))"

fun step_calls :: "effect list \<Rightarrow> nat list" where
  "step_calls [] = []"
| "step_calls (CallGenerateStepImage i _ _ # es) = i # step_calls es"
| "step_calls (_ # es) = step_calls es"

text \<open>
  One round of the loop for step \<open>i\<close> is the 4000 ms timer followed by the request for
  step \<open>i\<close>; a full run is the main-image request followed by one round per step.
\<close>

definition step_round :: "Recipe \<Rightarrow> nat \<Rightarrow> effect list" where
  "step_round r i = [SetTimeout 4000, CallGenerateStepImage i (steps r ! i) (title r)]"

definition rounds :: "Recipe \<Rightarrow> nat \<Rightarrow> effect list" where
  "rounds r n = concat (map (step_round r) [0..<n])"

definition full_run :: "Recipe \<Rightarrow> effect list" where
  "full_run r = CallGenerateRecipeImage (title r) (description r) # rounds r (length (steps r))"

subsection \<open>Schedules\<close>

text \<open>The liveness flag is set (is clear) before every event of a schedule and after it.\<close>

fun live_along :: "event list \<Rightarrow> world \<Rightarrow> bool" where
  "live_along [] w = isGeneratingRef (ui w)"
| "live_along (e # es) w = (isGeneratingRef (ui w) \<and> live_along es (fire e w))"

fun dead_along :: "event list \<Rightarrow> world \<Rightarrow> bool" where
  "dead_along [] w = (\<not> isGeneratingRef (ui w))"
| "dead_along (e # es) w = (\<not> isGeneratingRef (ui w) \<and> dead_along es (fire e w))"

text \<open>The session has not yet come back from the timer of step \<open>k\<close>.\<close>

fun delay_pending :: "nat \<Rightarrow> task \<Rightarrow> bool" where
  "delay_pending k (AwaitMainImage _) = True"
| "delay_pending k (AwaitDelay _ i) = (i \<le> k)"
| "delay_pending k (AwaitStepImage _ i) = (i < k)"
| "delay_pending k _ = False"

text \<open>
  The schedule on which nothing but the session's own awaits happens: the main image
  settles, then for each step the timer fires and the step image settles.
\<close>

definition settle_rounds ::
  "nat \<Rightarrow> (nat \<Rightarrow> GenerateImagesResponse settled) \<Rightarrow> nat \<Rightarrow> nat \<Rightarrow> event list" where
  "settle_rounds tid answers i n =
     concat (map (\<lambda>j. [DelayElapsed tid, StepImageSettled tid (answers j)]) [i..<n])"

definition uninterrupted ::
  "nat \<Rightarrow> GenerateImagesResponse settled \<Rightarrow> (nat \<Rightarrow> GenerateImagesResponse settled) \<Rightarrow> nat
     \<Rightarrow> event list" where
  "uninterrupted tid answer answers n = MainImageSettled tid answer # settle_rounds tid answers 0 n"

text \<open>The step images of the steps from \<open>i\<close> up to \<open>n\<close> whose request succeeded, over \<open>m\<close>.\<close>

definition applied ::
  "(nat \<Rightarrow> GenerateImagesResponse settled) \<Rightarrow> nat \<Rightarrow> nat \<Rightarrow> (nat \<rightharpoonup> jstring)
     \<Rightarrow> (nat \<rightharpoonup> jstring)" where
  "applied answers i n m =
     (\<lambda>j. if i \<le> j \<and> j < n then
             (case generateStepImage (answers j) of Resolved img \<Rightarrow> Some img | Rejected \<Rightarrow> m j)
           else m j)"

fun is_generate :: "event \<Rightarrow> bool" where
  "is_generate (UserGenerate _ _) = True"
| "is_generate _ = False"

subsection \<open>The chat\<close>

definition in_flight :: "chat_world \<Rightarrow> nat" where
  "in_flight w = length (filter (\<lambda>t. t \<noteq> Replied) (sends w))"

text \<open>
  The grounding chunks of a reply, where the provider puts them: on the first candidate.
\<close>

definition provider_chunks :: "GenerateContentResponse \<Rightarrow> GroundingChunk list option" where
  "provider_chunks response =
     (case candidates response of
        None \<Rightarrow> None
      | Some [] \<Rightarrow> None
      | Some (c # _) \<Rightarrow>
          (case groundingMetadata c of None \<Rightarrow> None | Some gm \<Rightarrow> groundingChunks gm))"

text \<open>A chunk with a web URI, and the entry it is cited by.\<close>

definition has_uri :: "GroundingChunk \<Rightarrow> bool" where
  "has_uri chunk =
     (case web chunk of
        None \<Rightarrow> False
      | Some w \<Rightarrow> (case uri_web w of None \<Rightarrow> False | Some u \<Rightarrow> u \<noteq> []))"

definition entry :: "GroundingChunk \<Rightarrow> Source" where
  "entry chunk =
     \<lparr>uri = (case web chunk of
               None \<Rightarrow> []
             | Some w \<Rightarrow> (case uri_web w of None \<Rightarrow> [] | Some u \<Rightarrow> u)),
      title_source = (case web chunk of None \<Rightarrow> None | Some w \<Rightarrow> title_web w)\<rparr>"

subsection \<open>Invariants\<close>

text \<open>
  Where a session of recipe \<open>r\<close> stands determines what it has asked for so far:
  \<open>trail\<close> is that list, \<open>belongs\<close> says that the task is one of \<open>r\<close> within the bounds
  of its steps.
\<close>

fun trail :: "Recipe \<Rightarrow> task \<Rightarrow> effect list" where
  "trail r (AwaitRecipe _) = []"
| "trail r (AwaitMainImage _) = [CallGenerateRecipeImage (title r) (description r)]"
| "trail r (AwaitDelay _ i) =
     CallGenerateRecipeImage (title r) (description r) # rounds r i @ [SetTimeout 4000]"
| "trail r (AwaitStepImage _ i) =
     CallGenerateRecipeImage (title r) (description r) # rounds r (Suc i)"
| "trail r Finished = full_run r"

fun belongs :: "Recipe \<Rightarrow> task \<Rightarrow> bool" where
  "belongs r (AwaitRecipe _) = False"
| "belongs r (AwaitMainImage r') = (r' = r)"
| "belongs r (AwaitDelay r' i) = (r' = r \<and> i < length (steps r))"
| "belongs r (AwaitStepImage r' i) = (r' = r \<and> i < length (steps r))"
| "belongs r Finished = True"

definition on_track :: "Recipe \<Rightarrow> nat \<Rightarrow> world \<Rightarrow> bool" where
  "on_track r tid w =
     (tid < length (tasks w) \<and> belongs r (tasks w ! tid)
      \<and> image_effects tid (effects w) = trail r (tasks w ! tid))"

definition in_order :: "Recipe \<Rightarrow> nat \<Rightarrow> world \<Rightarrow> bool" where
  "in_order r tid w =
     (tid < length (tasks w) \<and> belongs r (tasks w ! tid)
      \<and> (tasks w ! tid \<noteq> Finished \<longrightarrow>
           image_effects tid (effects w) = trail r (tasks w ! tid)))"

definition image_phase :: "nat \<Rightarrow> world \<Rightarrow> bool" where
  "image_phase tid w = (tid < length (tasks w) \<and> (\<forall>l. tasks w ! tid \<noteq> AwaitRecipe l))"

definition loading_inv :: "chat_world \<Rightarrow> bool" where
  "loading_inv w = (in_flight w = (if isLoading (cui w) then 1 else 0))"

section \<open>Sample data\<close>

definition latte :: Recipe where
  "latte =
     \<lparr>title = js ''Latte'', description = js ''Milky'', ingredients = [js ''Milk''],
      steps = [js ''Grind beans'', js ''Pull shot'', js ''Pour milk''], tips = js ''Enjoy''\<rparr>"

definition mocha :: Recipe where
  "mocha =
     \<lparr>title = js ''Mocha'', description = js ''Dark'', ingredients = [js ''Cocoa''],
      steps = [js ''Melt chocolate''], tips = js ''Stir''\<rparr>"

text \<open>A provider answer that carries one image with the given payload.\<close>

definition payload :: "string \<Rightarrow> GenerateImagesResponse settled" where
  "payload b =
     Resolved \<lparr>generatedImages = Some [\<lparr>image_field = Some \<lparr>imageBytes = Some (js b)\<rparr>\<rparr>]\<rparr>"

definition step_answers :: "nat \<Rightarrow> GenerateImagesResponse settled" where
  "step_answers i = (if i = 1 then Rejected else payload ''STEP'')"

text \<open>
  The generator after a first prompt has been submitted; after its recipe has been shown
  and the user has pressed reset; and in the middle of the second step's image request.
\<close>

definition submitted :: world where
  "submitted = fire (UserGenerate En (js ''latte'')) initial_world"


definition pouring :: world where
  "pouring =
     exec [RecipeSettled 0 (Resolved latte), MainImageSettled 0 Rejected, DelayElapsed 0,
           StepImageSettled 0 (payload ''ZERO''), DelayElapsed 0] submitted"

text \<open>The chat as it is mounted, with a question typed, and with the question sent.\<close>

definition mounted :: chat_world where
  "mounted = chat_fire (LanguageEffect En) initial_chat"

definition typing :: chat_world where
  "typing = chat_fire (UserTypes (js ''hi'')) mounted"

definition asked :: chat_world where
  "asked = chat_exec [UserTypes (js ''hi''), UserSends En 5] mounted"

definition welcome_msg :: Message where
  "welcome_msg =
     \<lparr>id_msg = js ''init'', role = Model, text_msg = t_welcome En, isTyping = None,
      sources = None\<rparr>"

text \<open>A reply whose first candidate carries four grounding chunks, two of them with a URI.\<close>

definition grounded :: GenerateContentResponse where
  "grounded =
     \<lparr>text_response = Some (js ''Try a flat white.''),
      candidates = Some [\<lparr>groundingMetadata = Some \<lparr>groundingChunks = Some
        [\<lparr>web = Some \<lparr>uri_web = Some (js ''https://a.example''), title_web = Some (js ''A'')\<rparr>\<rparr>,
         \<lparr>web = None\<rparr>,
         \<lparr>web = Some \<lparr>uri_web = None, title_web = Some (js ''B'')\<rparr>\<rparr>,
         \<lparr>web = Some \<lparr>uri_web = Some (js ''https://c.example''), title_web = None\<rparr>\<rparr>]\<rparr>\<rparr>]\<rparr>"

text \<open>
  Two texts and what \<open>JSON.parse\<close> makes of them: the empty object, and a recipe that
  follows the response schema. \<open>parse_sample\<close> is \<open>JSON.parse\<close> on these two texts and
  rejects every other text.
\<close>

definition quoted :: "string \<Rightarrow> jstring" where
  "quoted s = [34] @ js s @ [34]"

definition recipe_text :: jstring where
  "recipe_text =
     js ''{'' @ quoted ''title'' @ js '':'' @ quoted ''Latte'' @ js '','' @
     quoted ''description'' @ js '':'' @ quoted ''Milky'' @ js '','' @
     quoted ''ingredients'' @ js '':['' @ quoted ''Milk'' @ js ''],'' @
     quoted ''steps'' @ js '':['' @ quoted ''Pull shot'' @ js ''],'' @
     quoted ''tips'' @ js '':'' @ quoted ''Enjoy'' @ js ''}''"

definition recipe_json :: json where
  "recipe_json =
     JObject [(js ''title'', JString (js ''Latte'')), (js ''description'', JString (js ''Milky'')),
              (js ''ingredients'', JArray [JString (js ''Milk'')]),
              (js ''steps'', JArray [JString (js ''Pull shot'')]),
              (js ''tips'', JString (js ''Enjoy''))]"

definition parse_sample :: "jstring \<Rightarrow> json option" where
  "parse_sample t =
     (if t = js ''{}'' then Some (JObject [])
      else if t = recipe_text then Some recipe_json
      else None)"


section \<open>Basic facts\<close>

lemma emit_simps [simp]:
  "ui (emit tid e w) = ui w" "tasks (emit tid e w) = tasks w"
  "effects (emit tid e w) = effects w @ [(tid, e)]" "console (emit tid e w) = console w"
  by (simp_all add: emit_def)

lemma suspend_simps [simp]:
  "ui (suspend tid t w) = ui w" "tasks (suspend tid t w) = (tasks w)[tid := t]"
  "effects (suspend tid t w) = effects w" "console (suspend tid t w) = console w"
  by (simp_all add: suspend_def)

lemma console_error_simps [simp]:
  "ui (console_error c w) = ui w" "tasks (console_error c w) = tasks w"
  "effects (console_error c w) = effects w" "console (console_error c w) = console w @ [c]"
  by (simp_all add: console_error_def)

lemma loop_head_simps [simp]:
  "ui (loop_head tid r i w) = ui w"
  "console (loop_head tid r i w) = console w"
  "length (tasks (loop_head tid r i w)) = length (tasks w)"
  by (simp_all add: loop_head_def)

lemma image_effects_Nil [simp]: "image_effects tid [] = []"
  by (simp add: image_effects_def)

lemma image_effects_Cons [simp]:
  "image_effects tid ((t, e) # es) =
     (if t = tid \<and> is_image_effect e then e # image_effects tid es else image_effects tid es)"
  by (simp add: image_effects_def)

lemma image_effects_snoc [simp]:
  "image_effects tid (es @ [(t, e)]) =
     (if t = tid \<and> is_image_effect e then image_effects tid es @ [e] else image_effects tid es)"
  by (simp add: image_effects_def)

lemma step_calls_append [simp]: "step_calls (xs @ ys) = step_calls xs @ step_calls ys"
  by (induction xs rule: step_calls.induct) simp_all

lemma rounds_0 [simp]: "rounds r 0 = []"
  by (simp add: rounds_def)

lemma rounds_Suc: "rounds r (Suc i) = rounds r i @ step_round r i"
  by (simp add: rounds_def)

lemma step_calls_rounds [simp]: "step_calls (rounds r n) = [0..<n]"
  by (induction n) (simp_all add: rounds_Suc step_round_def)

lemma rounds_split: "i \<le> n \<Longrightarrow> rounds r n = rounds r i @ concat (map (step_round r) [i..<n])"
proof -
  assume "i \<le> n"
  then have "[0..<n] = [0..<i] @ [i..<n]"
    by (metis le_add_diff_inverse upt_add_eq_append zero_le)
  then show ?thesis by (simp add: rounds_def)
qed

lemma main_call_once:
  "filter (\<lambda>e. e = CallGenerateRecipeImage a b) (rounds r n) = []"
  by (induction n) (simp_all add: rounds_Suc step_round_def)

text \<open>What a session has asked for so far is an initial part of the full run.\<close>

lemma trail_prefix: "belongs r t \<Longrightarrow> prefix (trail r t) (full_run r)"
proof (cases t)
  case (AwaitDelay r' i)
  assume "belongs r t"
  with AwaitDelay have i: "i < length (steps r)" by simp
  then have "rounds r (length (steps r))
      = rounds r i @ concat (map (step_round r) (i # [Suc i..<length (steps r)]))"
    using rounds_split [of i "length (steps r)" r] by (simp add: upt_conv_Cons)
  with AwaitDelay show ?thesis by (simp add: full_run_def step_round_def)
next
  case (AwaitStepImage r' i)
  assume "belongs r t"
  with AwaitStepImage have "Suc i \<le> length (steps r)" by simp
  from rounds_split [OF this, of r] AwaitStepImage show ?thesis
    by (simp add: full_run_def)
qed (simp_all add: full_run_def)

section \<open>A session whose flag stays set\<close>

lemma on_track_fire:
  assumes "on_track r tid w" "isGeneratingRef (ui w)"
  shows "on_track r tid (fire e w)"
proof (cases e)
  case (UserGenerate l p)
  with assms show ?thesis
    by (auto simp: on_track_def handleGenerate_def nth_append)
next
  case UserReset
  with assms show ?thesis by (simp add: on_track_def)
next
  case (RecipeSettled t a)
  with assms show ?thesis
    by (cases "t = tid")
      (auto simp: on_track_def recipe_settled_def generateImagesSequentially_def
        split: task.splits settled.splits)
next
  case (MainImageSettled t a)
  with assms show ?thesis
    by (cases "t = tid")
      (auto simp: on_track_def main_image_settled_def loop_head_def full_run_def
        split: task.splits settled.splits)
next
  case (DelayElapsed t)
  with assms show ?thesis
    by (cases "t = tid")
      (auto simp: on_track_def delay_elapsed_def rounds_Suc step_round_def
        split: task.splits settled.splits)
next
  case (StepImageSettled t a)
  with assms show ?thesis
    by (cases "t = tid")
      (auto simp: on_track_def step_image_settled_def loop_head_def full_run_def rounds_Suc
        dest: less_antisym
        split: task.splits settled.splits)
qed

lemma on_track_exec: "on_track r tid w \<Longrightarrow> live_along evs w \<Longrightarrow> on_track r tid (exec evs w)"
proof (induction evs arbitrary: w)
  case Nil
  then show ?case by simp
next
  case (Cons e es)
  then show ?case by (simp add: on_track_fire)
qed

lemma on_track_start:
  assumes "tid < length (tasks w)" "tasks w ! tid = AwaitRecipe language"
    "image_effects tid (effects w) = []"
  shows "on_track r tid (fire (RecipeSettled tid (Resolved r)) w)"
  using assms by (simp add: on_track_def recipe_settled_def generateImagesSequentially_def)

section \<open>A session in any schedule\<close>

lemma in_order_fire:
  assumes "in_order r tid w"
  shows "in_order r tid (fire e w)"
proof (cases e)
  case (UserGenerate l p)
  with assms show ?thesis
    by (auto simp: in_order_def handleGenerate_def nth_append)
next
  case UserReset
  with assms show ?thesis by (simp add: in_order_def)
next
  case (RecipeSettled t a)
  with assms show ?thesis
    by (cases "t = tid")
      (auto simp: in_order_def recipe_settled_def generateImagesSequentially_def
        split: task.splits settled.splits)
next
  case (MainImageSettled t a)
  with assms show ?thesis
    by (cases "t = tid")
      (auto simp: in_order_def main_image_settled_def loop_head_def
        split: task.splits settled.splits)
next
  case (DelayElapsed t)
  with assms show ?thesis
    by (cases "t = tid")
      (auto simp: in_order_def delay_elapsed_def rounds_Suc step_round_def
        split: task.splits settled.splits)
next
  case (StepImageSettled t a)
  with assms show ?thesis
    by (cases "t = tid")
      (auto simp: in_order_def step_image_settled_def loop_head_def rounds_Suc
        split: task.splits settled.splits)
qed

lemma in_order_exec: "in_order r tid w \<Longrightarrow> in_order r tid (exec evs w)"
  by (induction evs arbitrary: w) (simp_all add: in_order_fire)

lemma in_order_start:
  assumes "tid < length (tasks w)" "tasks w ! tid = AwaitRecipe language"
    "image_effects tid (effects w) = []"
  shows "in_order r tid (fire (RecipeSettled tid (Resolved r)) w)"
  using assms by (simp add: in_order_def recipe_settled_def generateImagesSequentially_def)

section \<open>A session whose flag stays clear\<close>

lemma quiet_fire:
  assumes "image_phase tid w" "\<not> isGeneratingRef (ui w)"
  shows "image_phase tid (fire e w)
    \<and> image_effects tid (effects (fire e w)) = image_effects tid (effects w)"
proof (cases e)
  case (UserGenerate l p)
  with assms show ?thesis
    by (auto simp: image_phase_def handleGenerate_def nth_append)
next
  case UserReset
  with assms show ?thesis by (simp add: image_phase_def)
next
  case (RecipeSettled t a)
  with assms show ?thesis
    by (cases "t = tid")
      (auto simp: image_phase_def recipe_settled_def generateImagesSequentially_def
        split: task.splits settled.splits)
next
  case (MainImageSettled t a)
  with assms show ?thesis
    by (cases "t = tid")
      (auto simp: image_phase_def main_image_settled_def loop_head_def
        split: task.splits settled.splits)
next
  case (DelayElapsed t)
  with assms show ?thesis
    by (cases "t = tid")
      (auto simp: image_phase_def delay_elapsed_def
        split: task.splits settled.splits)
next
  case (StepImageSettled t a)
  with assms show ?thesis
    by (cases "t = tid")
      (auto simp: image_phase_def step_image_settled_def loop_head_def
        split: task.splits settled.splits)
qed

lemma quiet_exec:
  "image_phase tid w \<Longrightarrow> dead_along evs w \<Longrightarrow>
     image_effects tid (effects (exec evs w)) = image_effects tid (effects w)"
proof (induction evs arbitrary: w)
  case Nil
  then show ?case by simp
next
  case (Cons e es)
  then show ?case using quiet_fire [of tid w e] by simp
qed

lemma dead_result_dropped:
  assumes "\<not> isGeneratingRef (ui w)"
  shows "ui (fire (StepImageSettled tid answer) w) = ui w"
  using assms by (auto simp: step_image_settled_def split: task.splits settled.splits)

lemma delay_pending_calls:
  assumes "belongs r t" "delay_pending k t"
  shows "\<forall>j \<in> set (step_calls (trail r t)). j < k"
  using assms by (cases t) auto

section \<open>The schedule without interference\<close>

lemma applied_none [simp]: "applied answers n n m = m"
  by (auto simp: applied_def fun_eq_iff)

lemma loop_run:
  assumes "isGeneratingRef (ui w)" "tid < length (tasks w)" "i \<le> length (steps r)"
  shows "tasks (exec (settle_rounds tid answers i (length (steps r))) (loop_head tid r i w)) ! tid
        = Finished
    \<and> image_effects tid
         (effects (exec (settle_rounds tid answers i (length (steps r))) (loop_head tid r i w)))
        = image_effects tid (effects w) @ concat (map (step_round r) [i..<length (steps r)])
    \<and> ui (exec (settle_rounds tid answers i (length (steps r))) (loop_head tid r i w))
        = (ui w)\<lparr>stepImages := applied answers i (length (steps r)) (stepImages (ui w))\<rparr>"
  using assms
proof (induction "length (steps r) - i" arbitrary: i w)
  case 0
  then have "i = length (steps r)" by simp
  with 0 show ?case
    by (simp add: settle_rounds_def loop_head_def)
next
  case (Suc d)
  then have lt: "i < length (steps r)" by simp
  let ?n = "length (steps r)"
  define w1 where "w1 = loop_head tid r i w"
  define w2 where "w2 = fire (DelayElapsed tid) w1"
  define w3 where
    "w3 = (case generateStepImage (answers i) of
             Resolved img \<Rightarrow> w2\<lparr>ui := (ui w2)\<lparr>stepImages := (stepImages (ui w2))(i \<mapsto> img)\<rparr>\<rparr>
           | Rejected \<Rightarrow> console_error (StepImageFailed i) w2)"
  have w1: "tasks w1 ! tid = AwaitDelay r i" "ui w1 = ui w" "length (tasks w1) = length (tasks w)"
    "image_effects tid (effects w1) = image_effects tid (effects w) @ [SetTimeout 4000]"
    using lt Suc.prems by (simp_all add: w1_def loop_head_def)
  have w2: "tasks w2 ! tid = AwaitStepImage r i" "ui w2 = ui w"
    "length (tasks w2) = length (tasks w)"
    "image_effects tid (effects w2) = image_effects tid (effects w) @ step_round r i"
    using w1 Suc.prems by (simp_all add: w2_def delay_elapsed_def step_round_def)
  have w3: "isGeneratingRef (ui w3)" "tid < length (tasks w3)"
    "image_effects tid (effects w3) = image_effects tid (effects w) @ step_round r i"
    "ui w3 = (ui w)\<lparr>stepImages :=
        (case generateStepImage (answers i) of
           Resolved img \<Rightarrow> (stepImages (ui w))(i \<mapsto> img)
         | Rejected \<Rightarrow> stepImages (ui w))\<rparr>"
    using w2 Suc.prems by (simp_all add: w3_def split: settled.splits)
  have fire3: "fire (StepImageSettled tid (answers i)) w2 = loop_head tid r (Suc i) w3"
    using w2 Suc.prems by (simp add: step_image_settled_def w3_def split: settled.splits)
  have sched: "settle_rounds tid answers i ?n
      = DelayElapsed tid # StepImageSettled tid (answers i) # settle_rounds tid answers (Suc i) ?n"
    using lt by (simp add: settle_rounds_def upt_conv_Cons)
  have ex: "exec (settle_rounds tid answers i ?n) (loop_head tid r i w)
      = exec (settle_rounds tid answers (Suc i) ?n) (loop_head tid r (Suc i) w3)"
    by (simp add: sched fire3 [symmetric] w2_def w1_def)
  have d: "d = ?n - Suc i" using Suc.hyps(2) by simp
  have le: "Suc i \<le> ?n" using lt by simp
  note IH = Suc.hyps(1) [OF d w3(1) w3(2) le]
  have ap: "applied answers (Suc i) ?n (stepImages (ui w3))
      = applied answers i ?n (stepImages (ui w))"
  proof (rule ext)
    fix j
    show "applied answers (Suc i) ?n (stepImages (ui w3)) j
        = applied answers i ?n (stepImages (ui w)) j"
      using lt
      by (cases "j = i") (auto simp: applied_def w3(4) Suc_le_eq less_le split: settled.splits)
  qed
  have over: "(ui w3)\<lparr>stepImages := m\<rparr> = (ui w)\<lparr>stepImages := m\<rparr>" for m
    by (simp add: w3(4))
  from IH have "ui (exec (settle_rounds tid answers (Suc i) ?n) (loop_head tid r (Suc i) w3))
      = (ui w)\<lparr>stepImages := applied answers i ?n (stepImages (ui w))\<rparr>"
    by (simp only: ap over)
  moreover from IH
  have "tasks (exec (settle_rounds tid answers (Suc i) ?n) (loop_head tid r (Suc i) w3)) ! tid
      = Finished"
    by simp
  moreover from IH have "image_effects tid
       (effects (exec (settle_rounds tid answers (Suc i) ?n) (loop_head tid r (Suc i) w3)))
      = image_effects tid (effects w) @ concat (map (step_round r) [i..<?n])"
    using lt by (simp add: w3(3) upt_conv_Cons)
  ultimately show ?case
    unfolding ex by simp
qed

section \<open>The step-image map\<close>

lemma stepImages_fire_keeps:
  assumes "\<not> is_generate e" "stepImages (ui w) j \<noteq> None"
  shows "stepImages (ui (fire e w)) j \<noteq> None"
  using assms
  by (cases e)
    (auto simp: handleReset_def recipe_settled_def generateImagesSequentially_def
      main_image_settled_def delay_elapsed_def step_image_settled_def
      split: task.splits settled.splits)

lemma stepImages_exec_keeps:
  "\<forall>e \<in> set evs. \<not> is_generate e \<Longrightarrow> stepImages (ui w) j \<noteq> None \<Longrightarrow>
     stepImages (ui (exec evs w)) j \<noteq> None"
proof (induction evs arbitrary: w)
  case Nil
  then show ?case by simp
next
  case (Cons e es)
  from Cons.prems have "stepImages (ui (fire e w)) j \<noteq> None"
    using stepImages_fire_keeps [of e w j] by simp
  with Cons.IH [of "fire e w"] Cons.prems(1) show ?case by simp
qed

section \<open>The chat's requests\<close>

lemma filter_Boolean_cite: "filter_Boolean (map cite chunks) = map entry (filter has_uri chunks)"
  by (induction chunks) (auto simp: cite_def has_uri_def entry_def split: option.splits)

lemma in_flight_update:
  assumes "tid < length ts" "ts ! tid \<noteq> Replied"
  shows "Suc (length (filter (\<lambda>t. t \<noteq> Replied) (ts[tid := Replied])))
      = length (filter (\<lambda>t. t \<noteq> Replied) ts)"
  using assms
proof (induction ts arbitrary: tid)
  case Nil
  then show ?case by simp
next
  case (Cons t ts)
  then show ?case by (cases tid) auto
qed

lemma loading_inv_fire: "loading_inv w \<Longrightarrow> loading_inv (chat_fire e w)"
proof (cases e)
  case (LanguageEffect l)
  assume "loading_inv w"
  with LanguageEffect show ?thesis
    by (simp add: loading_inv_def in_flight_def welcome_effect_def)
next
  case (UserTypes v)
  assume "loading_inv w"
  with UserTypes show ?thesis by (simp add: loading_inv_def in_flight_def)
next
  case (UserSends l n)
  assume "loading_inv w"
  with UserSends show ?thesis
    by (auto simp: loading_inv_def in_flight_def handleSend_def Let_def split: if_splits)
next
  case (ReplySettled tid a n)
  assume inv: "loading_inv w"
  show ?thesis
  proof (cases "tid < length (sends w) \<and> sends w ! tid \<noteq> Replied")
    case True
    then obtain l where l: "sends w ! tid = AwaitReply l" by (cases "sends w ! tid") auto
    from True in_flight_update [of tid "sends w"]
    have s: "Suc (length (filter (\<lambda>t. t \<noteq> Replied) ((sends w)[tid := Replied]))) = in_flight w"
      by (simp add: in_flight_def)
    with inv have "length (filter (\<lambda>t. t \<noteq> Replied) ((sends w)[tid := Replied])) = 0"
      by (auto simp: loading_inv_def split: if_splits)
    with True l ReplySettled show ?thesis
      by (auto simp: loading_inv_def in_flight_def reply_settled_def split: settled.splits)
  next
    case False
    with inv ReplySettled show ?thesis by (auto split: chat_task.splits)
  qed
qed

lemma loading_inv_exec: "loading_inv w \<Longrightarrow> loading_inv (chat_exec es w)"
  by (induction es arbitrary: w) (simp_all add: loading_inv_fire)

section \<open>Facts about the sample data\<close>

lemma sample_prompts:
  "trim (js ''latte'') \<noteq> []" "trim (js ''mocha'') \<noteq> []" "trim (js ''hi'') \<noteq> []"
  "trim (js ''   '') = []"
  by (simp_all add: trim_def isWhiteSpace_def js_def)

lemma sample_steps: "length (steps latte) = 3" "length (steps mocha) = 1"
  by (simp_all add: latte_def mocha_def)

lemma payload_url:
  "generateRecipeImage (payload (c # cs)) = Resolved (js ''data:image/jpeg;base64,'' @ js (c # cs))"
  "generateStepImage (payload (c # cs)) = Resolved (js ''data:image/jpeg;base64,'' @ js (c # cs))"
  "generateRecipeImage Rejected = Rejected" "generateStepImage Rejected = Rejected"
  by (simp_all add: generateRecipeImage_def generateStepImage_def data_url_def first_imageBytes_def
      payload_def js_def)

lemma sample_texts:
  "recipe_text \<noteq> []" "js ''{}'' \<noteq> recipe_text" "js ''{'' \<noteq> []" "js ''{'' \<noteq> js ''{}''"
  "js ''{'' \<noteq> recipe_text"
  by (simp_all add: recipe_text_def js_def quoted_def)

lemmas run_defs = submitted_def initial_world_def initial_component_def handleGenerate_def
  handleReset_def recipe_settled_def generateImagesSequentially_def main_image_settled_def
  delay_elapsed_def step_image_settled_def loop_head_def emit_def suspend_def console_error_def
  sample_prompts sample_steps payload_url

lemmas chat_defs = typing_def asked_def mounted_def initial_chat_def welcome_effect_def
  welcome_msg_def handleSend_def reply_settled_def Let_def sample_prompts

lemma submitted_start:
  "0 < length (tasks submitted)" "tasks submitted ! 0 = AwaitRecipe En"
  "image_effects 0 (effects submitted) = []"
  "imageUrl (ui submitted) = None" "error (ui submitted) = None"
  "stepImages (ui submitted) = Map.empty"
  by (simp_all add: run_defs)

lemma full_run_latte:
  "full_run latte =
     [CallGenerateRecipeImage (title latte) (description latte),
      SetTimeout 4000, CallGenerateStepImage 0 (steps latte ! 0) (title latte),
      SetTimeout 4000, CallGenerateStepImage 1 (steps latte ! 1) (title latte),
      SetTimeout 4000, CallGenerateStepImage 2 (steps latte ! 2) (title latte)]"
  apply (simp add: full_run_def rounds_def step_round_def sample_steps upt_rec)
  apply (simp add: numeral_2_eq_2)
  done

section \<open>The sequencer\<close>

text \<open>
  C1. Claimed: once a session's flag has been invalidated, none of its pending image
  results is applied any more and its loop stops at the next checkpoint, also when a newer
  session has become live in between. The code keeps one boolean for all sessions. On
  the schedule below the first session is waiting for its main image when the user
  resets and submits again; the reset has cleared the flag, the second session's recipe
  sets it again, and the first session's image is then stored as the main image beside
  the second session's recipe, and the first session's loop goes on to its first timer.
\<close>

theorem stale_session_writes_after_restart:
  "isGeneratingRef (ui (exec [RecipeSettled 0 (Resolved latte), UserReset] submitted)) = False
   \<and> recipe (ui (exec [RecipeSettled 0 (Resolved latte), UserReset,
                        UserGenerate En (js ''mocha''), RecipeSettled 1 (Resolved mocha),
                        MainImageSettled 0 (payload ''OLD'')] submitted)) = Some mocha
   \<and> imageUrl (ui (exec [RecipeSettled 0 (Resolved latte), UserReset,
                        UserGenerate En (js ''mocha''), RecipeSettled 1 (Resolved mocha),
                        MainImageSettled 0 (payload ''OLD'')] submitted))
       = Some (js ''data:image/jpeg;base64,'' @ js ''OLD'')
   \<and> tasks (exec [RecipeSettled 0 (Resolved latte), UserReset,
                   UserGenerate En (js ''mocha''), RecipeSettled 1 (Resolved mocha),
                   MainImageSettled 0 (payload ''OLD'')] submitted) ! 0 = AwaitDelay latte 0"
  by (simp add: run_defs)

text \<open>
  C2. A session starts when its recipe arrives. In every schedule in which the liveness
  flag is set before and after each event, whatever the image requests answer, what the
  session has asked for is an initial part of: the main-image request, then for each step
  in index order the 4000 ms timer and the request for that step. When the session has
  finished it has asked for exactly that: one main-image request and one request per
  step, the indices being 0 up to the number of steps, each after its own timer.
\<close>

theorem sequencer_live_run_requests:
  assumes "tid < length (tasks w)"
    and "tasks w ! tid = AwaitRecipe language"
    and "image_effects tid (effects w) = []"
    and "w' = exec evs (fire (RecipeSettled tid (Resolved r)) w)"
    and "live_along evs (fire (RecipeSettled tid (Resolved r)) w)"
  shows "prefix (image_effects tid (effects w')) (full_run r)
    \<and> (tasks w' ! tid = Finished \<longrightarrow>
          image_effects tid (effects w') = full_run r
          \<and> step_calls (image_effects tid (effects w')) = [0..<length (steps r)]
          \<and> length (filter (\<lambda>e. e = CallGenerateRecipeImage (title r) (description r))
                      (image_effects tid (effects w'))) = 1)"
proof -
  have "on_track r tid (fire (RecipeSettled tid (Resolved r)) w)"
    using assms(1-3) by (rule on_track_start)
  then have ot: "on_track r tid w'"
    using assms(4,5) on_track_exec by simp
  then have "prefix (image_effects tid (effects w')) (full_run r)"
    by (simp add: on_track_def trail_prefix)
  moreover have "image_effects tid (effects w') = full_run r" if "tasks w' ! tid = Finished"
    using ot that by (simp add: on_track_def)
  ultimately show ?thesis
    by (simp add: full_run_def main_call_once)
qed

theorem sequencer_live_run_requests_witness:
  "0 < length (tasks submitted)
   \<and> tasks submitted ! 0 = AwaitRecipe En
   \<and> image_effects 0 (effects submitted) = []
   \<and> live_along [MainImageSettled 0 (payload ''A''), DelayElapsed 0,
        StepImageSettled 0 (payload ''B''), DelayElapsed 0, StepImageSettled 0 Rejected,
        DelayElapsed 0, StepImageSettled 0 (payload ''C'')]
        (fire (RecipeSettled 0 (Resolved latte)) submitted)
   \<and> tasks (exec [MainImageSettled 0 (payload ''A''), DelayElapsed 0,
        StepImageSettled 0 (payload ''B''), DelayElapsed 0, StepImageSettled 0 Rejected,
        DelayElapsed 0, StepImageSettled 0 (payload ''C'')]
        (fire (RecipeSettled 0 (Resolved latte)) submitted)) ! 0 = Finished
   \<and> image_effects 0 (effects (exec [MainImageSettled 0 (payload ''A''), DelayElapsed 0,
        StepImageSettled 0 (payload ''B''), DelayElapsed 0, StepImageSettled 0 Rejected,
        DelayElapsed 0, StepImageSettled 0 (payload ''C'')]
        (fire (RecipeSettled 0 (Resolved latte)) submitted)))
      = [CallGenerateRecipeImage (title latte) (description latte),
         SetTimeout 4000, CallGenerateStepImage 0 (steps latte ! 0) (title latte),
         SetTimeout 4000, CallGenerateStepImage 1 (steps latte ! 1) (title latte),
         SetTimeout 4000, CallGenerateStepImage 2 (steps latte ! 2) (title latte)]"
proof -
  let ?evs = "[MainImageSettled 0 (payload ''A''), DelayElapsed 0,
        StepImageSettled 0 (payload ''B''), DelayElapsed 0, StepImageSettled 0 Rejected,
        DelayElapsed 0, StepImageSettled 0 (payload ''C'')]"
  let ?w1 = "fire (RecipeSettled 0 (Resolved latte)) submitted"
  note a = submitted_start(1) and b = submitted_start(2) and c = submitted_start(3)
  have d: "live_along ?evs ?w1" by (simp add: run_defs)
  have e: "tasks (exec ?evs ?w1) ! 0 = Finished" by (simp add: run_defs)
  have g: "image_effects 0 (effects (exec ?evs ?w1)) = full_run latte"
    using sequencer_live_run_requests [OF a b c refl d] e by blast
  from a b c d e g [unfolded full_run_latte] show ?thesis by blast
qed

text \<open>
  C3. Let a session have started, let anything happen after that, and let the session
  not yet be back from the timer of step \<open>k\<close>. If from then on the liveness flag is
  clear before and after every event, the session asks for nothing more: every step
  request it has ever made is for an index below \<open>k\<close>. And whenever the flag is clear, a
  step-image result that arrives leaves the step-image map as it is.
\<close>

theorem cancelled_before_delay:
  assumes "tid < length (tasks w)"
    and "tasks w ! tid = AwaitRecipe language"
    and "image_effects tid (effects w) = []"
    and "w1 = exec evs1 (fire (RecipeSettled tid (Resolved r)) w)"
    and "delay_pending k (tasks w1 ! tid)"
    and "dead_along evs2 w1"
  shows "(\<forall>j \<in> set (step_calls (image_effects tid (effects (exec evs2 w1)))). j < k)
    \<and> image_effects tid (effects (exec evs2 w1)) = image_effects tid (effects w1)
    \<and> (\<forall>w0 t answer. \<not> isGeneratingRef (ui w0) \<longrightarrow>
          stepImages (ui (fire (StepImageSettled t answer) w0)) = stepImages (ui w0))"
proof -
  have "in_order r tid (fire (RecipeSettled tid (Resolved r)) w)"
    using assms(1-3) by (rule in_order_start)
  then have io: "in_order r tid w1"
    using assms(4) in_order_exec by simp
  from assms(5) have nf: "tasks w1 ! tid \<noteq> Finished"
    by (cases "tasks w1 ! tid") simp_all
  from io nf have fx: "image_effects tid (effects w1) = trail r (tasks w1 ! tid)"
    and bl: "belongs r (tasks w1 ! tid)" and len: "tid < length (tasks w1)"
    by (simp_all add: in_order_def)
  from bl have "image_phase tid w1"
    using len by (cases "tasks w1 ! tid") (simp_all add: image_phase_def)
  then have same: "image_effects tid (effects (exec evs2 w1)) = image_effects tid (effects w1)"
    using assms(6) quiet_exec by blast
  have "\<forall>j \<in> set (step_calls (trail r (tasks w1 ! tid))). j < k"
    using bl assms(5) by (rule delay_pending_calls)
  moreover have "\<forall>w0 t answer. \<not> isGeneratingRef (ui w0) \<longrightarrow>
      stepImages (ui (fire (StepImageSettled t answer) w0)) = stepImages (ui w0)"
    using dead_result_dropped by metis
  ultimately show ?thesis
    using same fx by metis
qed

theorem cancelled_before_delay_witness:
  "0 < length (tasks submitted)
   \<and> tasks submitted ! 0 = AwaitRecipe En
   \<and> image_effects 0 (effects submitted) = []
   \<and> delay_pending 1 (tasks (exec [MainImageSettled 0 (payload ''A''), DelayElapsed 0, UserReset]
        (fire (RecipeSettled 0 (Resolved latte)) submitted)) ! 0)
   \<and> dead_along [StepImageSettled 0 (payload ''B''), DelayElapsed 0]
        (exec [MainImageSettled 0 (payload ''A''), DelayElapsed 0, UserReset]
          (fire (RecipeSettled 0 (Resolved latte)) submitted))
   \<and> step_calls (image_effects 0 (effects (exec [StepImageSettled 0 (payload ''B''), DelayElapsed 0]
        (exec [MainImageSettled 0 (payload ''A''), DelayElapsed 0, UserReset]
          (fire (RecipeSettled 0 (Resolved latte)) submitted))))) = [0]
   \<and> \<not> isGeneratingRef (ui (exec [MainImageSettled 0 (payload ''A''), DelayElapsed 0, UserReset]
          (fire (RecipeSettled 0 (Resolved latte)) submitted)))
   \<and> stepImages (ui (fire (StepImageSettled 0 (payload ''B''))
        (exec [MainImageSettled 0 (payload ''A''), DelayElapsed 0, UserReset]
          (fire (RecipeSettled 0 (Resolved latte)) submitted)))) = Map.empty"
proof -
  let ?w1 = "exec [MainImageSettled 0 (payload ''A''), DelayElapsed 0, UserReset]
          (fire (RecipeSettled 0 (Resolved latte)) submitted)"
  let ?evs2 = "[StepImageSettled 0 (payload ''B''), DelayElapsed 0]"
  note a = submitted_start(1) and b = submitted_start(2) and c = submitted_start(3)
  have d: "delay_pending 1 (tasks ?w1 ! 0)" by (simp add: run_defs)
  have e: "dead_along ?evs2 ?w1" by (simp add: run_defs)
  have f: "\<not> isGeneratingRef (ui ?w1)" by (simp add: run_defs)
  have g: "stepImages (ui ?w1) = Map.empty" by (simp add: run_defs)
  have h: "image_effects 0 (effects ?w1)
      = [CallGenerateRecipeImage (title latte) (description latte), SetTimeout 4000,
         CallGenerateStepImage 0 (steps latte ! 0) (title latte)]"
    by (simp add: run_defs)
  note inst = cancelled_before_delay [OF a b c refl d e]
  from inst have i: "image_effects 0 (effects (exec ?evs2 ?w1)) = image_effects 0 (effects ?w1)"
    by blast
  from inst f
  have j: "stepImages (ui (fire (StepImageSettled 0 (payload ''B'')) ?w1)) = stepImages (ui ?w1)"
    by blast
  have k: "step_calls (image_effects 0 (effects (exec ?evs2 ?w1))) = [0]"
    unfolding i h by simp
  from a b c d e f k j [unfolded g] show ?thesis by blast
qed

text \<open>
  C4. A session starts when its recipe arrives, and then nothing but its own awaits
  happens. Whatever the image requests answer, failures included, the session finishes
  having asked for the main image and for every step after its own timer, each once.
  The main-image slot holds the main image if that request succeeded and is as it was if
  it failed; the step-image map holds the image of every step whose request succeeded
  and is as it was at the other keys; the error message is as it was.
\<close>

theorem image_failures_independent:
  assumes "tid < length (tasks w)"
    and "tasks w ! tid = AwaitRecipe language"
    and "image_effects tid (effects w) = []"
    and "w1 = fire (RecipeSettled tid (Resolved r)) w"
    and "w2 = exec (uninterrupted tid answer answers (length (steps r))) w1"
  shows "tasks w2 ! tid = Finished
    \<and> image_effects tid (effects w2) = full_run r
    \<and> imageUrl (ui w2) =
        (case generateRecipeImage answer of
           Resolved img \<Rightarrow> Some img
         | Rejected \<Rightarrow> imageUrl (ui w))
    \<and> stepImages (ui w2) = applied answers 0 (length (steps r)) (stepImages (ui w))
    \<and> error (ui w2) = error (ui w)"
proof -
  let ?n = "length (steps r)"
  define w0 where
    "w0 = (case generateRecipeImage answer of
             Resolved img \<Rightarrow> w1\<lparr>ui := (ui w1)\<lparr>imageUrl := Some img\<rparr>\<rparr>
           | Rejected \<Rightarrow> console_error MainImageFailed w1)"
  have w1: "tasks w1 ! tid = AwaitMainImage r" "isGeneratingRef (ui w1)"
    "length (tasks w1) = length (tasks w)"
    "image_effects tid (effects w1) = [CallGenerateRecipeImage (title r) (description r)]"
    "imageUrl (ui w1) = imageUrl (ui w)" "stepImages (ui w1) = stepImages (ui w)"
    "error (ui w1) = error (ui w)"
    using assms(1-4) by (simp_all add: recipe_settled_def generateImagesSequentially_def)
  have w0: "isGeneratingRef (ui w0)" "tid < length (tasks w0)"
    "image_effects tid (effects w0) = [CallGenerateRecipeImage (title r) (description r)]"
    "imageUrl (ui w0) =
       (case generateRecipeImage answer of
          Resolved img \<Rightarrow> Some img
        | Rejected \<Rightarrow> imageUrl (ui w))"
    "stepImages (ui w0) = stepImages (ui w)" "error (ui w0) = error (ui w)"
    using w1 assms(1) by (simp_all add: w0_def split: settled.splits)
  have "fire (MainImageSettled tid answer) w1 = loop_head tid r 0 w0"
    using w1 assms(1) by (simp add: main_image_settled_def w0_def split: settled.splits)
  then have w2: "w2 = exec (settle_rounds tid answers 0 ?n) (loop_head tid r 0 w0)"
    using assms(5) by (simp add: uninterrupted_def)
  from loop_run [OF w0(1) w0(2), of 0 r answers]
  show ?thesis
    unfolding w2 by (simp add: w0 full_run_def rounds_def)
qed

theorem image_failures_independent_witness:
  "0 < length (tasks submitted)
   \<and> tasks submitted ! 0 = AwaitRecipe En
   \<and> image_effects 0 (effects submitted) = []
   \<and> tasks (exec (uninterrupted 0 Rejected step_answers (length (steps latte)))
        (fire (RecipeSettled 0 (Resolved latte)) submitted)) ! 0 = Finished
   \<and> image_effects 0 (effects (exec (uninterrupted 0 Rejected step_answers (length (steps latte)))
        (fire (RecipeSettled 0 (Resolved latte)) submitted))) = full_run latte
   \<and> imageUrl (ui (exec (uninterrupted 0 Rejected step_answers (length (steps latte)))
        (fire (RecipeSettled 0 (Resolved latte)) submitted))) = None
   \<and> stepImages (ui (exec (uninterrupted 0 Rejected step_answers (length (steps latte)))
        (fire (RecipeSettled 0 (Resolved latte)) submitted)))
       = [0 \<mapsto> js ''data:image/jpeg;base64,'' @ js ''STEP'',
          2 \<mapsto> js ''data:image/jpeg;base64,'' @ js ''STEP'']
   \<and> error (ui (exec (uninterrupted 0 Rejected step_answers (length (steps latte)))
        (fire (RecipeSettled 0 (Resolved latte)) submitted))) = None"
proof -
  let ?w2 = "exec (uninterrupted 0 Rejected step_answers (length (steps latte)))
        (fire (RecipeSettled 0 (Resolved latte)) submitted)"
  note a = submitted_start(1) and b = submitted_start(2) and c = submitted_start(3)
  note d = submitted_start(4-6)
  have e: "applied step_answers 0 (length (steps latte)) Map.empty
      = [0 \<mapsto> js ''data:image/jpeg;base64,'' @ js ''STEP'',
         2 \<mapsto> js ''data:image/jpeg;base64,'' @ js ''STEP'']"
    by (auto simp: applied_def step_answers_def sample_steps payload_url fun_eq_iff)
  note inst = image_failures_independent [OF a b c refl refl, where r = latte
      and answer = Rejected and answers = step_answers]
  from inst have f: "tasks ?w2 ! 0 = Finished" by blast
  from inst have g: "image_effects 0 (effects ?w2) = full_run latte" by blast
  from inst have h: "imageUrl (ui ?w2) = None"
    by (simp add: d payload_url del: exec.simps fire.simps)
  from inst have i: "stepImages (ui ?w2)
       = [0 \<mapsto> js ''data:image/jpeg;base64,'' @ js ''STEP'',
          2 \<mapsto> js ''data:image/jpeg;base64,'' @ js ''STEP'']"
    by (simp add: d e del: exec.simps fire.simps)
  from inst have j: "error (ui ?w2) = None"
    by (simp add: d del: exec.simps fire.simps)
  from a b c f g h i j show ?thesis by blast
qed

text \<open>
  C7. When the image of step \<open>i\<close> arrives for a live session and is a success, the
  step-image map becomes the old map with the image stored at key \<open>i\<close>: the entry at
  every other key is as it was. Along any schedule on which no prompt is submitted, a
  key that is in the map stays in the map.
\<close>

theorem step_image_keyed_by_index:
  assumes "tid < length (tasks w)"
    and "tasks w ! tid = AwaitStepImage r i"
    and "isGeneratingRef (ui w)"
    and "generateStepImage answer = Resolved img"
    and "\<forall>e \<in> set evs. \<not> is_generate e"
  shows "stepImages (ui (fire (StepImageSettled tid answer) w)) = (stepImages (ui w))(i \<mapsto> img)
    \<and> (\<forall>j. j \<noteq> i \<longrightarrow>
          stepImages (ui (fire (StepImageSettled tid answer) w)) j = stepImages (ui w) j)
    \<and> (\<forall>j. stepImages (ui w) j \<noteq> None \<longrightarrow> stepImages (ui (exec evs w)) j \<noteq> None)"
proof -
  have "stepImages (ui (fire (StepImageSettled tid answer) w)) = (stepImages (ui w))(i \<mapsto> img)"
    using assms(1-4) by (simp add: step_image_settled_def)
  moreover have "\<forall>j. stepImages (ui w) j \<noteq> None \<longrightarrow> stepImages (ui (exec evs w)) j \<noteq> None"
    using assms(5) stepImages_exec_keeps by blast
  ultimately show ?thesis by simp
qed

theorem step_image_keyed_by_index_witness:
  "0 < length (tasks pouring)
   \<and> tasks pouring ! 0 = AwaitStepImage latte 1
   \<and> isGeneratingRef (ui pouring)
   \<and> generateStepImage (payload ''ONE'') = Resolved (js ''data:image/jpeg;base64,'' @ js ''ONE'')
   \<and> \<not> is_generate (StepImageSettled 0 (payload ''ONE''))
   \<and> \<not> is_generate UserReset
   \<and> \<not> is_generate (DelayElapsed 0)
   \<and> stepImages (ui pouring) 0 = Some (js ''data:image/jpeg;base64,'' @ js ''ZERO'')
   \<and> stepImages (ui (fire (StepImageSettled 0 (payload ''ONE'')) pouring)) 0
       = Some (js ''data:image/jpeg;base64,'' @ js ''ZERO'')
   \<and> stepImages (ui (fire (StepImageSettled 0 (payload ''ONE'')) pouring)) 1
       = Some (js ''data:image/jpeg;base64,'' @ js ''ONE'')
   \<and> stepImages (ui (exec [StepImageSettled 0 (payload ''ONE''), UserReset, DelayElapsed 0] pouring)) 0
       \<noteq> None"
proof -
  let ?evs = "[StepImageSettled 0 (payload ''ONE''), UserReset, DelayElapsed 0]"
  have a: "0 < length (tasks pouring)" by (simp add: pouring_def run_defs)
  have b: "tasks pouring ! 0 = AwaitStepImage latte 1" by (simp add: pouring_def run_defs)
  have c: "isGeneratingRef (ui pouring)" by (simp add: pouring_def run_defs)
  have d: "generateStepImage (payload ''ONE'') = Resolved (js ''data:image/jpeg;base64,'' @ js ''ONE'')"
    by (rule payload_url)
  have e: "\<forall>e \<in> set ?evs. \<not> is_generate e" by simp
  have f: "stepImages (ui pouring) 0 = Some (js ''data:image/jpeg;base64,'' @ js ''ZERO'')"
    by (simp add: pouring_def run_defs)
  note inst = step_image_keyed_by_index [OF a b c d e]
  from inst have g: "stepImages (ui (fire (StepImageSettled 0 (payload ''ONE'')) pouring)) 0
      = stepImages (ui pouring) 0" by (simp del: fire.simps exec.simps)
  from inst have h: "stepImages (ui (fire (StepImageSettled 0 (payload ''ONE'')) pouring)) 1
      = Some (js ''data:image/jpeg;base64,'' @ js ''ONE'')" by (simp del: fire.simps exec.simps)
  from inst f have i: "stepImages (ui (exec ?evs pouring)) 0 \<noteq> None"
    by (simp del: fire.simps exec.simps)
  have e': "\<not> is_generate (StepImageSettled 0 (payload ''ONE''))" "\<not> is_generate UserReset"
    "\<not> is_generate (DelayElapsed 0)"
    by simp_all
  from a b c d e' f g [unfolded f] h i show ?thesis by blast
qed

text \<open>
  C9. \<open>handleReset\<close> sets the liveness flag to false and the view step to \<open>input\<close>, and
  leaves the recipe, the main image URL, the step-image map, the prompt text and the
  error message as they were (and the loading flag and the lightbox selection too).
\<close>

theorem handleReset_frame:
  "isGeneratingRef (handleReset c) = False \<and> step (handleReset c) = Input
   \<and> recipe (handleReset c) = recipe c \<and> imageUrl (handleReset c) = imageUrl c
   \<and> stepImages (handleReset c) = stepImages c \<and> prompt (handleReset c) = prompt c
   \<and> error (handleReset c) = error c \<and> loading (handleReset c) = loading c
   \<and> selectedImage (handleReset c) = selectedImage c"
  by (simp add: handleReset_def)

section \<open>The recipe service\<close>

text \<open>
  C5, as claimed: a response text that cannot be parsed into the Recipe shape makes
  \<open>generateCoffeeRecipe\<close> throw. It does not: the text \<open>{}\<close> is valid JSON, the empty
  object is returned as the recipe, and it has none of the five fields.
\<close>

theorem unchecked_shape_counterexample:
  "generateCoffeeRecipe parse_sample
     (Resolved \<lparr>text_response = Some (js ''{}''), candidates = None\<rparr>)
     = Inr (JObject [])
   \<and> as_Recipe (JObject []) = None"
  by (simp add: generateCoffeeRecipe_def parse_sample_def js_def get_field_def)

text \<open>
  C5, amended. \<open>generateCoffeeRecipe\<close> fails when the request fails, when the response
  text is missing or empty, and when the text is not valid JSON; on any other response it
  returns the value that \<open>JSON.parse\<close> yields for the text, unchecked.
\<close>

theorem recipe_text_failure:
  "generateCoffeeRecipe JSON_parse Rejected = Inl RequestFailed
   \<and> (text_response response = None \<or> text_response response = Some [] \<longrightarrow>
        generateCoffeeRecipe JSON_parse (Resolved response) = Inl NoRecipeGenerated)
   \<and> (text_response response = Some t \<and> t \<noteq> [] \<and> JSON_parse t = None \<longrightarrow>
        generateCoffeeRecipe JSON_parse (Resolved response) = Inl SyntaxError)
   \<and> (text_response response = Some t \<and> t \<noteq> [] \<and> JSON_parse t = Some v \<longrightarrow>
        generateCoffeeRecipe JSON_parse (Resolved response) = Inr v)"
  by (auto simp: generateCoffeeRecipe_def)

theorem recipe_text_failure_witness:
  "generateCoffeeRecipe parse_sample
     (Resolved \<lparr>text_response = Some [], candidates = None\<rparr>) = Inl NoRecipeGenerated
   \<and> parse_sample (js ''{'') = None
   \<and> generateCoffeeRecipe parse_sample
       (Resolved \<lparr>text_response = Some (js ''{''), candidates = None\<rparr>) = Inl SyntaxError
   \<and> parse_sample recipe_text = Some recipe_json
   \<and> generateCoffeeRecipe parse_sample
       (Resolved \<lparr>text_response = Some recipe_text, candidates = None\<rparr>) = Inr recipe_json
   \<and> as_Recipe recipe_json
       = Some \<lparr>title = js ''Latte'', description = js ''Milky'', ingredients = [js ''Milk''],
               steps = [js ''Pull shot''], tips = js ''Enjoy''\<rparr>"
proof -
  have a: "parse_sample (js ''{'') = None"
    by (simp add: parse_sample_def sample_texts)
  have b: "parse_sample recipe_text = Some recipe_json"
    by (simp add: parse_sample_def sample_texts(2) [symmetric])
  have c: "as_Recipe recipe_json
     = Some \<lparr>title = js ''Latte'', description = js ''Milky'', ingredients = [js ''Milk''],
             steps = [js ''Pull shot''], tips = js ''Enjoy''\<rparr>"
    by (simp add: recipe_json_def get_field_def js_def)
  from recipe_text_failure
    [of parse_sample "\<lparr>text_response = Some [], candidates = None\<rparr>"]
  have d: "generateCoffeeRecipe parse_sample
      (Resolved \<lparr>text_response = Some [], candidates = None\<rparr>) = Inl NoRecipeGenerated"
    by simp
  from recipe_text_failure
    [of parse_sample "\<lparr>text_response = Some (js ''{''), candidates = None\<rparr>" "js ''{''"] a
  have e: "generateCoffeeRecipe parse_sample
      (Resolved \<lparr>text_response = Some (js ''{''), candidates = None\<rparr>) = Inl SyntaxError"
    by (simp add: sample_texts)
  from recipe_text_failure
    [of parse_sample "\<lparr>text_response = Some recipe_text, candidates = None\<rparr>"
      recipe_text recipe_json] b
  have f: "generateCoffeeRecipe parse_sample
      (Resolved \<lparr>text_response = Some recipe_text, candidates = None\<rparr>) = Inr recipe_json"
    by (simp add: sample_texts)
  from a b c d e f show ?thesis by blast
qed

section \<open>Errors shown to the user\<close>




section \<open>The chat\<close>

text \<open>Whatever the reply, the message built from it has no sources.\<close>

lemma botMsg_without_sources: "sources (botMsg now response) = None"
  by (simp add: botMsg_def sources_of_def response_groundingMetadata_def)

text \<open>
  C8. Claimed: the sources of the displayed reply are the entries (uri, title) of the
  provider's grounding chunks that have a web URI, in their order. \<open>handleSend\<close> looks
  for the chunks in \<open>response.groundingMetadata\<close>, but the reply that
  \<open>chatWithCoffeeExpert\<close> hands over carries them on its first candidate. For the reply
  below the provider sends four chunks, two of them with a URI; the callback and the
  filter of \<open>handleSend\<close> would turn them into the two entries the claim describes, but
  they are never reached and the message appended to the transcript has no sources.
\<close>

theorem reply_sources_lost:
  "provider_chunks grounded = Some
     [\<lparr>web = Some \<lparr>uri_web = Some (js ''https://a.example''), title_web = Some (js ''A'')\<rparr>\<rparr>,
      \<lparr>web = None\<rparr>,
      \<lparr>web = Some \<lparr>uri_web = None, title_web = Some (js ''B'')\<rparr>\<rparr>,
      \<lparr>web = Some \<lparr>uri_web = Some (js ''https://c.example''), title_web = None\<rparr>\<rparr>]
   \<and> filter_Boolean (map cite
       [\<lparr>web = Some \<lparr>uri_web = Some (js ''https://a.example''), title_web = Some (js ''A'')\<rparr>\<rparr>,
        \<lparr>web = None\<rparr>,
        \<lparr>web = Some \<lparr>uri_web = None, title_web = Some (js ''B'')\<rparr>\<rparr>,
        \<lparr>web = Some \<lparr>uri_web = Some (js ''https://c.example''), title_web = None\<rparr>\<rparr>])
       = [\<lparr>uri = js ''https://a.example'', title_source = Some (js ''A'')\<rparr>,
          \<lparr>uri = js ''https://c.example'', title_source = None\<rparr>]
   \<and> sends asked ! 0 = AwaitReply En
   \<and> sources (last (messages (cui (chat_fire (ReplySettled 0 (Resolved grounded) 9) asked))))
       = None"
proof -
  have ne: "js ''https://a.example'' \<noteq> []" "js ''https://c.example'' \<noteq> []"
    by (simp_all add: js_def)
  have a: "provider_chunks grounded = Some
     [\<lparr>web = Some \<lparr>uri_web = Some (js ''https://a.example''), title_web = Some (js ''A'')\<rparr>\<rparr>,
      \<lparr>web = None\<rparr>,
      \<lparr>web = Some \<lparr>uri_web = None, title_web = Some (js ''B'')\<rparr>\<rparr>,
      \<lparr>web = Some \<lparr>uri_web = Some (js ''https://c.example''), title_web = None\<rparr>\<rparr>]"
    by (simp add: provider_chunks_def grounded_def)
  have b: "filter_Boolean (map cite
       [\<lparr>web = Some \<lparr>uri_web = Some (js ''https://a.example''), title_web = Some (js ''A'')\<rparr>\<rparr>,
        \<lparr>web = None\<rparr>,
        \<lparr>web = Some \<lparr>uri_web = None, title_web = Some (js ''B'')\<rparr>\<rparr>,
        \<lparr>web = Some \<lparr>uri_web = Some (js ''https://c.example''), title_web = None\<rparr>\<rparr>])
       = [\<lparr>uri = js ''https://a.example'', title_source = Some (js ''A'')\<rparr>,
          \<lparr>uri = js ''https://c.example'', title_source = None\<rparr>]"
    by (simp add: cite_def ne)
  have c: "sends asked ! 0 = AwaitReply En" by (simp add: chat_defs)
  have d: "sources (last (messages (cui (chat_fire (ReplySettled 0 (Resolved grounded) 9) asked))))
       = None"
    by (simp add: chat_defs botMsg_def sources_of_def response_groundingMetadata_def)
  from a b c d show ?thesis by blast
qed

text \<open>
  C10. \<open>handleGenerate\<close> on a prompt that is empty after trimming returns at once: no
  request is made and nothing changes. \<open>handleSend\<close> returns at once when the input is
  empty after trimming or a request is still loading. Whatever the user types and sends
  and whenever replies arrive, at most one chat request is in flight.
\<close>

theorem blank_input_ignored:
  "(trim inputPrompt = [] \<longrightarrow> handleGenerate language inputPrompt w = w)
   \<and> (trim (input (cui c)) = [] \<or> isLoading (cui c) \<longrightarrow> handleSend chat_language now c = c)
   \<and> in_flight (chat_exec evs initial_chat) \<le> 1"
proof -
  have "loading_inv initial_chat"
    by (simp add: loading_inv_def in_flight_def initial_chat_def)
  then have "loading_inv (chat_exec evs initial_chat)"
    by (rule loading_inv_exec)
  then have "in_flight (chat_exec evs initial_chat) \<le> 1"
    by (simp add: loading_inv_def split: if_splits)
  then show ?thesis
    by (simp add: handleGenerate_def handleSend_def)
qed

theorem blank_input_ignored_witness:
  "trim (js ''   '') = []
   \<and> handleGenerate En (js ''   '') submitted = submitted
   \<and> isLoading (cui (chat_exec [UserTypes (js ''hi''), UserSends En 5, UserTypes (js ''more'')]
        mounted))
   \<and> handleSend En 7 (chat_exec [UserTypes (js ''hi''), UserSends En 5, UserTypes (js ''more'')]
        mounted)
       = chat_exec [UserTypes (js ''hi''), UserSends En 5, UserTypes (js ''more'')] mounted
   \<and> in_flight (chat_exec [UserTypes (js ''hi''), UserSends En 5, UserTypes (js ''more''),
        UserSends En 7] mounted) \<le> 1"
proof -
  let ?c = "chat_exec [UserTypes (js ''hi''), UserSends En 5, UserTypes (js ''more'')] mounted"
  have a: "trim (js ''   '') = []" by (rule sample_prompts)
  have b: "isLoading (cui ?c)" by (simp add: chat_defs)
  note inst = blank_input_ignored [of "js ''   ''" En submitted ?c En 7
      "[LanguageEffect En, UserTypes (js ''hi''), UserSends En 5, UserTypes (js ''more''),
        UserSends En 7]"]
  from inst a have c: "handleGenerate En (js ''   '') submitted = submitted" by blast
  from inst b have d: "handleSend En 7 ?c = ?c" by blast
  have run: "chat_exec (LanguageEffect En # es) initial_chat = chat_exec es mounted" for es
    by (simp only: chat_exec.simps mounted_def)
  from inst have e: "in_flight (chat_exec [UserTypes (js ''hi''), UserSends En 5,
        UserTypes (js ''more''), UserSends En 7] mounted) \<le> 1"
    unfolding run by blast
  from a b c d e show ?thesis by blast
qed

end
